theory Spec2Isabelle
  imports Complex_Main "HOL-Library.Multiset"
begin

section \<open>JavaScript values and arithmetic\<close>

text \<open>
  The values that flow through the estimator are JavaScript Numbers and \<open>undefined\<close>
  (the result of reading an array past its ends). A finite Number is \<open>Num r\<close>. The
  code is embedded twice. In this section and the two that follow, the arithmetic on
  finite Numbers is exact: the rounding and the overflow of IEEE-754 doubles and the sign
  of zero are left out, and the results stated on these definitions are about the order
  of the values, the array and the empty input. The section on binary64 arithmetic
  embeds the same code with every operation rounded, and the results about the values
  the code returns are stated there. The special values (\<open>NaN\<close> from \<open>0 / 0\<close> and from
  arithmetic on \<open>undefined\<close>, the infinities from a division by zero) are values of their
  own in both.
\<close>

datatype jsval = Num real | PosInfinity | NegInfinity | NaN | Undefined

text \<open>\<open>a + b\<close> on Numbers and \<open>undefined\<close>: \<open>undefined\<close> converts to \<open>NaN\<close>,
  \<open>NaN\<close> is absorbing, and \<open>Infinity + -Infinity\<close> is \<open>NaN\<close>.\<close>

fun js_add :: "jsval \<Rightarrow> jsval \<Rightarrow> jsval" where
  "js_add (Num a) (Num b) = Num (a + b)"
| "js_add (Num a) PosInfinity = PosInfinity"
| "js_add (Num a) NegInfinity = NegInfinity"
| "js_add PosInfinity (Num b) = PosInfinity"
| "js_add PosInfinity PosInfinity = PosInfinity"
| "js_add NegInfinity (Num b) = NegInfinity"
| "js_add NegInfinity NegInfinity = NegInfinity"
| "js_add _ _ = NaN"

fun js_sub :: "jsval \<Rightarrow> jsval \<Rightarrow> jsval" where
  "js_sub (Num a) (Num b) = Num (a - b)"
| "js_sub (Num a) PosInfinity = NegInfinity"
| "js_sub (Num a) NegInfinity = PosInfinity"
| "js_sub PosInfinity (Num b) = PosInfinity"
| "js_sub PosInfinity NegInfinity = PosInfinity"
| "js_sub NegInfinity (Num b) = NegInfinity"
| "js_sub NegInfinity PosInfinity = NegInfinity"
| "js_sub _ _ = NaN"

text \<open>The sign of an infinite product; \<open>0 * Infinity\<close> is \<open>NaN\<close>.\<close>

definition signed_inf :: "real \<Rightarrow> jsval" where
  "signed_inf s = (if 0 < s then PosInfinity else if s < 0 then NegInfinity else NaN)"

fun js_mul :: "jsval \<Rightarrow> jsval \<Rightarrow> jsval" where
  "js_mul (Num a) (Num b) = Num (a * b)"
| "js_mul (Num a) PosInfinity = signed_inf a"
| "js_mul (Num a) NegInfinity = signed_inf (- a)"
| "js_mul PosInfinity (Num b) = signed_inf b"
| "js_mul NegInfinity (Num b) = signed_inf (- b)"
| "js_mul PosInfinity PosInfinity = PosInfinity"
| "js_mul PosInfinity NegInfinity = NegInfinity"
| "js_mul NegInfinity PosInfinity = NegInfinity"
| "js_mul NegInfinity NegInfinity = PosInfinity"
| "js_mul _ _ = NaN"

text \<open>\<open>a / b\<close>: a division by zero raises nothing in JavaScript. A zero divisor is the
  positive zero (the divisors of this program are array lengths and converted
  non-negative integers), so \<open>x / 0\<close> is an infinity of the sign of \<open>x\<close>, and
  \<open>0 / 0\<close> is \<open>NaN\<close>.\<close>

fun js_div :: "jsval \<Rightarrow> jsval \<Rightarrow> jsval" where
  "js_div (Num a) (Num b) = (if b = 0 then signed_inf a else Num (a / b))"
| "js_div (Num a) PosInfinity = Num 0"
| "js_div (Num a) NegInfinity = Num 0"
| "js_div PosInfinity (Num b) = (if 0 \<le> b then PosInfinity else NegInfinity)"
| "js_div NegInfinity (Num b) = (if 0 \<le> b then NegInfinity else PosInfinity)"
| "js_div _ _ = NaN"

text \<open>\<open>Math.round\<close>: the nearest integer, a tie going up: \<open>floor (x + 0.5)\<close>.\<close>

fun Math_round :: "jsval \<Rightarrow> jsval" where
  "Math_round (Num a) = Num (of_int \<lfloor>a + 1 / 2\<rfloor>)"
| "Math_round PosInfinity = PosInfinity"
| "Math_round NegInfinity = NegInfinity"
| "Math_round _ = NaN"


text \<open>\<open>arr[i]\<close> for a Number \<open>i\<close> that holds an integer: the element when \<open>i\<close> is an
  index of the array, \<open>undefined\<close> otherwise (a negative index included).\<close>

definition js_index :: "jsval list \<Rightarrow> int \<Rightarrow> jsval" where
  "js_index arr i = (if 0 \<le> i \<and> i < int (length arr) then arr ! nat i else Undefined)"

section \<open>The statistics helpers (\<open>utils/helperFunctions.js\<close>)\<close>

text \<open>\<open>const asc = (arr) => arr.sort((a, b) => a - b)\<close>. \<open>Array.prototype.sort\<close> sorts
  the array in place and returns that same array, so \<open>asc arr\<close> is at once the value
  returned and the contents of the caller's array after the call. The arrays sorted
  here hold finite Numbers, for which the comparator is a total order.\<close>

definition asc :: "real list \<Rightarrow> real list" where
  "asc arr = sort arr"

text \<open>\<open>const sum = (arr) => arr.reduce((a, b) => a + b, 0)\<close>\<close>

definition sum_arr :: "jsval list \<Rightarrow> jsval" where
  "sum_arr arr = foldl js_add (Num 0) arr"

text \<open>\<open>const mean = (arr) => Math.round(sum(arr) / arr.length)\<close>\<close>

definition mean :: "jsval list \<Rightarrow> jsval" where
  "mean arr = Math_round (js_div (sum_arr arr) (Num (real (length arr))))"

text \<open>\<open>quantile(arr, q)\<close> for an array of finite Numbers and a finite \<open>q\<close>. The result
  is the returned value together with the contents of \<open>arr\<close> after the call:
  \<open>sorted\<close> is the array \<open>arr\<close> itself, sorted in place by \<open>asc\<close>.\<close>

definition quantile :: "real list \<Rightarrow> real \<Rightarrow> jsval \<times> real list" where
  "quantile arr q =
     (let srt = asc arr;
          pos = (real (length srt) - 1) * q;
          base = \<lfloor>pos\<rfloor>;
          rest = pos - of_int base;
          vals = map Num srt
      in (if js_index vals (base + 1) \<noteq> Undefined
          then js_add (js_index vals base)
                 (js_mul (Num rest) (js_sub (js_index vals (base + 1)) (js_index vals base)))
          else js_index vals base,
          srt))"


section \<open>The fee estimator (\<open>scripts/gasFeeEstimator.js\<close>)\<close>

text \<open>The data source is the \<open>ethers\<close> provider, outside the repository. Its big
  integers (\<open>BigNumber\<close>) are \<open>int\<close>; a call that fails, and a conversion that
  throws, return \<open>Inl\<close>.\<close>

datatype error = SourceUnavailable | NumericFault

text \<open>\<open>BigNumber.toNumber()\<close> of the \<open>ethers\<close> library: the value as a Number; it
  throws when the value does not fit the 53 bits of a safe integer.\<close>

definition toNumber :: "int \<Rightarrow> error + real" where
  "toNumber n = (if \<bar>n\<bar> < 2 ^ 53 then Inr (of_int n) else Inl NumericFault)"

text \<open>A transaction as the estimator reads it: \<open>tx.type\<close> and
  \<open>tx.maxPriorityFeePerGas\<close> (read for the transactions of type 2 only).\<close>

record transaction =
  tx_type :: jsval
  tx_maxPriorityFeePerGas :: int

record block =
  number :: int
  baseFeePerGas :: int
  gasUsed :: int
  gasLimit :: int
  transactions :: "transaction list"

text \<open>The object \<open>dataFormatter\<close> returns; \<open>maxPriorityFeePerGas\<close> is the array
  \<open>[q30, q60, q90]\<close>.\<close>

record summary =
  summary_number :: int
  summary_baseFeePerGas :: real
  maxPriorityFeePerGas :: "jsval list"
  gasUsedRatio :: jsval

text \<open>The object the estimator prints.\<close>

record estimate =
  slow :: jsval
  average :: jsval
  fast :: jsval

text \<open>One run asks the provider for the block number once, for each block of the
  window once and for the pending block once: the provider is the record of its
  answers. Of the pending block only \<open>baseFeePerGas\<close> is read.\<close>

record provider =
  getBlockNumber :: "error + int"
  getBlockWithTransactions :: "int \<Rightarrow> error + block"
  getBlock_pending :: "error + int"

text \<open>\<open>.map((tx) => tx.maxPriorityFeePerGas.toNumber())\<close>, left to right; the first
  conversion that throws ends the call.\<close>

fun map_toNumber :: "transaction list \<Rightarrow> error + real list" where
  "map_toNumber [] = Inr []"
| "map_toNumber (tx # txs) =
     (case toNumber (tx_maxPriorityFeePerGas tx) of
        Inl e \<Rightarrow> Inl e
      | Inr v \<Rightarrow> (case map_toNumber txs of Inl e \<Rightarrow> Inl e | Inr vs \<Rightarrow> Inr (v # vs)))"

text \<open>\<open>dataFormatter\<close>. The three calls of \<open>quantile\<close> receive the same array, which
  each of them sorts in place: the contents are threaded from one call to the next.\<close>

definition dataFormatter :: "block \<Rightarrow> error + summary" where
  "dataFormatter blocks =
     (case map_toNumber (filter (\<lambda>tx. tx_type tx = Num 2) (transactions blocks)) of
        Inl e \<Rightarrow> Inl e
      | Inr maxPriorityFeePerGasArray \<Rightarrow>
          (let (q30, arr1) = quantile maxPriorityFeePerGasArray (3 / 10);
               (q60, arr2) = quantile arr1 (6 / 10);
               (q90, arr3) = quantile arr2 (9 / 10)
           in case toNumber (baseFeePerGas blocks) of
                Inl e \<Rightarrow> Inl e
              | Inr base \<Rightarrow>
                  (case toNumber (gasUsed blocks) of
                     Inl e \<Rightarrow> Inl e
                   | Inr used \<Rightarrow>
                       (case toNumber (gasLimit blocks) of
                          Inl e \<Rightarrow> Inl e
                        | Inr limit \<Rightarrow>
                            Inr \<lparr> summary_number = number blocks,
                                  summary_baseFeePerGas = base,
                                  maxPriorityFeePerGas = [q30, q60, q90],
                                  gasUsedRatio = js_div (Num used) (Num limit) \<rparr>))))"

text \<open>The loop \<open>for (let i = blockNumber - 4; i < blockNumber; i++)\<close>, which pushes
  the summary of block \<open>i\<close>; a failed fetch or conversion ends the run.\<close>

function fetch_blocks :: "provider \<Rightarrow> int \<Rightarrow> int \<Rightarrow> summary list \<Rightarrow> error + summary list" where
  "fetch_blocks p i blockNumber blocks =
     (if i < blockNumber
      then (case getBlockWithTransactions p i of
              Inl e \<Rightarrow> Inl e
            | Inr raw \<Rightarrow>
                (case dataFormatter raw of
                   Inl e \<Rightarrow> Inl e
                 | Inr b \<Rightarrow> fetch_blocks p (i + 1) blockNumber (blocks @ [b])))
      else Inr blocks)"
  by pat_completeness auto
termination
  by (relation "measure (\<lambda>(p, i, blockNumber, blocks). nat (blockNumber - i))") auto

text \<open>\<open>gasEstimator\<close>; the value is the object it prints.\<close>

definition gasEstimator :: "provider \<Rightarrow> error + estimate" where
  "gasEstimator p =
     (case getBlockNumber p of
        Inl e \<Rightarrow> Inl e
      | Inr blockNumber \<Rightarrow>
          (case fetch_blocks p (blockNumber - 4) blockNumber [] of
             Inl e \<Rightarrow> Inl e
           | Inr blocks \<Rightarrow>
               (let slowMaxPriorityFee =
                      mean (map (\<lambda>block. js_index (maxPriorityFeePerGas block) 0) blocks);
                    averageMaxPriorityFee =
                      mean (map (\<lambda>block. js_index (maxPriorityFeePerGas block) 1) blocks);
                    fastMaxPriorityFee =
                      mean (map (\<lambda>block. js_index (maxPriorityFeePerGas block) 2) blocks)
                in case getBlock_pending p of
                     Inl e \<Rightarrow> Inl e
                   | Inr pendingBaseFee \<Rightarrow>
                       (case toNumber pendingBaseFee of
                          Inl e \<Rightarrow> Inl e
                        | Inr baseFee \<Rightarrow>
                            Inr \<lparr> slow = js_add (Num baseFee) slowMaxPriorityFee,
                                  average = js_add (Num baseFee) averageMaxPriorityFee,
                                  fast = js_add (Num baseFee) fastMaxPriorityFee \<rparr>))))"


section \<open>Binary64 arithmetic\<close>

text \<open>
  The Numbers of the code are IEEE-754 binary64 values, and every \<open>+\<close>, \<open>-\<close>, \<open>*\<close> and
  \<open>/\<close> returns the double nearest to the exact result, a tie going to the even
  significand. The definitions of this section are the code with that arithmetic; the
  values they give are the values the code returns. A finite double is the real number
  it stands for (the sign of zero is not kept).
\<close>

text \<open>The binade of a real number: \<open>floor (log2 |x|)\<close>, not below \<open>-1022\<close> (the
  exponent of the subnormal doubles). \<open>binade_hi\<close> halves a number that is at least 1,
  \<open>binade_lo\<close> doubles a number below 1.\<close>

function binade_hi :: "real \<Rightarrow> int" where
  "binade_hi x = (if 2 \<le> x then binade_hi (x / 2) + 1 else 0)"
  by pat_completeness auto
termination
proof (relation "measure (\<lambda>x. nat \<lfloor>x\<rfloor>)")
  show "wf (measure (\<lambda>x::real. nat \<lfloor>x\<rfloor>))" by simp
next
  fix x :: real assume "2 \<le> x"
  then have "\<lfloor>x / 2\<rfloor> < \<lfloor>x\<rfloor>" by (simp add: floor_less_iff) linarith
  moreover have "0 < \<lfloor>x\<rfloor>" using \<open>2 \<le> x\<close> by simp
  ultimately show "(x / 2, x) \<in> measure (\<lambda>x. nat \<lfloor>x\<rfloor>)" by simp
qed

function binade_lo :: "real \<Rightarrow> int \<Rightarrow> int" where
  "binade_lo x e = (if x < 1 \<and> - 1022 < e then binade_lo (2 * x) (e - 1) else e)"
  by pat_completeness auto
termination
  by (relation "measure (\<lambda>(x, e). nat (e + 1022))") auto

definition binade :: "real \<Rightarrow> int" where
  "binade x = (if 1 \<le> \<bar>x\<bar> then binade_hi \<bar>x\<bar> else binade_lo \<bar>x\<bar> 0)"

text \<open>\<open>2\<close> to an integer power.\<close>

definition pow2 :: "int \<Rightarrow> real" where
  "pow2 k = (if 0 \<le> k then 2 ^ nat k else 1 / 2 ^ nat (- k))"

text \<open>The nearest integer, a tie going to the even one.\<close>

definition rne :: "real \<Rightarrow> int" where
  "rne x = (let f = \<lfloor>x\<rfloor>; r = x - of_int f
            in if r < 1 / 2 then f else if 1 / 2 < r then f + 1
               else if even f then f else f + 1)"

text \<open>Rounding to binary64 with an unbounded exponent above: the nearest multiple of
  the spacing \<open>2 ^ (binade x - 52)\<close> of the doubles around \<open>x\<close> (53 significant bits).\<close>

definition fl :: "real \<Rightarrow> real" where
  "fl x = (if x = 0 then 0
           else let quantum = pow2 (binade x - 52) in of_int (rne (x / quantum)) * quantum)"

text \<open>The Number that an exact result becomes: its rounding, or an infinity when the
  rounding reaches \<open>2 ^ 1024\<close> (overflow).\<close>

definition to_Number :: "real \<Rightarrow> jsval" where
  "to_Number x = (let r = fl x in if 2 ^ 1024 \<le> \<bar>r\<bar> then signed_inf r else Num r)"

text \<open>The four operations on Numbers and \<open>undefined\<close>; on the special values they
  are the operations of the first section.\<close>

fun js_add64 :: "jsval \<Rightarrow> jsval \<Rightarrow> jsval" where
  "js_add64 (Num a) (Num b) = to_Number (a + b)"
| "js_add64 (Num a) PosInfinity = PosInfinity"
| "js_add64 (Num a) NegInfinity = NegInfinity"
| "js_add64 PosInfinity (Num b) = PosInfinity"
| "js_add64 PosInfinity PosInfinity = PosInfinity"
| "js_add64 NegInfinity (Num b) = NegInfinity"
| "js_add64 NegInfinity NegInfinity = NegInfinity"
| "js_add64 _ _ = NaN"

fun js_sub64 :: "jsval \<Rightarrow> jsval \<Rightarrow> jsval" where
  "js_sub64 (Num a) (Num b) = to_Number (a - b)"
| "js_sub64 (Num a) PosInfinity = NegInfinity"
| "js_sub64 (Num a) NegInfinity = PosInfinity"
| "js_sub64 PosInfinity (Num b) = PosInfinity"
| "js_sub64 PosInfinity NegInfinity = PosInfinity"
| "js_sub64 NegInfinity (Num b) = NegInfinity"
| "js_sub64 NegInfinity PosInfinity = NegInfinity"
| "js_sub64 _ _ = NaN"

fun js_mul64 :: "jsval \<Rightarrow> jsval \<Rightarrow> jsval" where
  "js_mul64 (Num a) (Num b) = to_Number (a * b)"
| "js_mul64 (Num a) PosInfinity = signed_inf a"
| "js_mul64 (Num a) NegInfinity = signed_inf (- a)"
| "js_mul64 PosInfinity (Num b) = signed_inf b"
| "js_mul64 NegInfinity (Num b) = signed_inf (- b)"
| "js_mul64 PosInfinity PosInfinity = PosInfinity"
| "js_mul64 PosInfinity NegInfinity = NegInfinity"
| "js_mul64 NegInfinity PosInfinity = NegInfinity"
| "js_mul64 NegInfinity NegInfinity = PosInfinity"
| "js_mul64 _ _ = NaN"

fun js_div64 :: "jsval \<Rightarrow> jsval \<Rightarrow> jsval" where
  "js_div64 (Num a) (Num b) = (if b = 0 then signed_inf a else to_Number (a / b))"
| "js_div64 (Num a) PosInfinity = Num 0"
| "js_div64 (Num a) NegInfinity = Num 0"
| "js_div64 PosInfinity (Num b) = (if 0 \<le> b then PosInfinity else NegInfinity)"
| "js_div64 NegInfinity (Num b) = (if 0 \<le> b then NegInfinity else PosInfinity)"
| "js_div64 _ _ = NaN"

text \<open>\<open>const sum = (arr) => arr.reduce((a, b) => a + b, 0)\<close>\<close>

definition sum_arr64 :: "jsval list \<Rightarrow> jsval" where
  "sum_arr64 arr = foldl js_add64 (Num 0) arr"

text \<open>\<open>const mean = (arr) => Math.round(sum(arr) / arr.length)\<close>. \<open>Math.round\<close> is
  exact: the nearest integer to a double is a double.\<close>

definition mean64 :: "jsval list \<Rightarrow> jsval" where
  "mean64 arr = Math_round (js_div64 (sum_arr64 arr) (Num (real (length arr))))"

text \<open>\<open>quantile(arr, q)\<close> for an array of finite Numbers and a finite \<open>q\<close>, with the
  caller's array after the call. \<open>sorted.length - 1\<close> is exact (an array has fewer than
  \<open>2 ^ 32\<close> elements), \<open>Math.floor\<close> is exact, and \<open>pos\<close>, \<open>rest\<close>, the difference, the
  product and the sum are each rounded. A \<open>pos\<close> that is not finite reads the array
  out of range.\<close>

definition quantile64 :: "real list \<Rightarrow> real \<Rightarrow> jsval \<times> real list" where
  "quantile64 arr q =
     (let srt = asc arr
      in case js_mul64 (Num (real (length srt) - 1)) (Num q) of
           Num pos \<Rightarrow>
             (let base = \<lfloor>pos\<rfloor>;
                  rest = js_sub64 (Num pos) (Num (of_int base));
                  vals = map Num srt
              in (if js_index vals (base + 1) \<noteq> Undefined
                  then js_add64 (js_index vals base)
                         (js_mul64 rest (js_sub64 (js_index vals (base + 1)) (js_index vals base)))
                  else js_index vals base,
                  srt))
         | _ \<Rightarrow> (Undefined, srt))"

text \<open>\<open>dataFormatter\<close>; the literals \<open>0.3\<close>, \<open>0.6\<close> and \<open>0.9\<close> are the doubles
  nearest to 3/10, 6/10 and 9/10.\<close>

definition dataFormatter64 :: "block \<Rightarrow> error + summary" where
  "dataFormatter64 blocks =
     (case map_toNumber (filter (\<lambda>tx. tx_type tx = Num 2) (transactions blocks)) of
        Inl e \<Rightarrow> Inl e
      | Inr maxPriorityFeePerGasArray \<Rightarrow>
          (let (q30, arr1) = quantile64 maxPriorityFeePerGasArray (fl (3 / 10));
               (q60, arr2) = quantile64 arr1 (fl (6 / 10));
               (q90, arr3) = quantile64 arr2 (fl (9 / 10))
           in case toNumber (baseFeePerGas blocks) of
                Inl e \<Rightarrow> Inl e
              | Inr base \<Rightarrow>
                  (case toNumber (gasUsed blocks) of
                     Inl e \<Rightarrow> Inl e
                   | Inr used \<Rightarrow>
                       (case toNumber (gasLimit blocks) of
                          Inl e \<Rightarrow> Inl e
                        | Inr limit \<Rightarrow>
                            Inr \<lparr> summary_number = number blocks,
                                  summary_baseFeePerGas = base,
                                  maxPriorityFeePerGas = [q30, q60, q90],
                                  gasUsedRatio = js_div64 (Num used) (Num limit) \<rparr>))))"

function fetch_blocks64 :: "provider \<Rightarrow> int \<Rightarrow> int \<Rightarrow> summary list \<Rightarrow> error + summary list" where
  "fetch_blocks64 p i blockNumber blocks =
     (if i < blockNumber
      then (case getBlockWithTransactions p i of
              Inl e \<Rightarrow> Inl e
            | Inr raw \<Rightarrow>
                (case dataFormatter64 raw of
                   Inl e \<Rightarrow> Inl e
                 | Inr b \<Rightarrow> fetch_blocks64 p (i + 1) blockNumber (blocks @ [b])))
      else Inr blocks)"
  by pat_completeness auto
termination
  by (relation "measure (\<lambda>(p, i, blockNumber, blocks). nat (blockNumber - i))") auto

definition gasEstimator64 :: "provider \<Rightarrow> error + estimate" where
  "gasEstimator64 p =
     (case getBlockNumber p of
        Inl e \<Rightarrow> Inl e
      | Inr blockNumber \<Rightarrow>
          (case fetch_blocks64 p (blockNumber - 4) blockNumber [] of
             Inl e \<Rightarrow> Inl e
           | Inr blocks \<Rightarrow>
               (let slowMaxPriorityFee =
                      mean64 (map (\<lambda>block. js_index (maxPriorityFeePerGas block) 0) blocks);
                    averageMaxPriorityFee =
                      mean64 (map (\<lambda>block. js_index (maxPriorityFeePerGas block) 1) blocks);
                    fastMaxPriorityFee =
                      mean64 (map (\<lambda>block. js_index (maxPriorityFeePerGas block) 2) blocks)
                in case getBlock_pending p of
                     Inl e \<Rightarrow> Inl e
                   | Inr pendingBaseFee \<Rightarrow>
                       (case toNumber pendingBaseFee of
                          Inl e \<Rightarrow> Inl e
                        | Inr baseFee \<Rightarrow>
                            Inr \<lparr> slow = js_add64 (Num baseFee) slowMaxPriorityFee,
                                  average = js_add64 (Num baseFee) averageMaxPriorityFee,
                                  fast = js_add64 (Num baseFee) fastMaxPriorityFee \<rparr>))))"

section \<open>The estimator of the specification\<close>

text \<open>The quantile as the specification words it (the linear-interpolation estimator
  of type 7), on real numbers: the fractional rank \<open>pos = (length - 1) * q\<close> over the
  sorted samples, \<open>base = floor pos\<close>, \<open>rest = pos - base\<close>, and the interpolation
  between the neighbours when the index \<open>base + 1\<close> exists.\<close>

definition quantile_type7 :: "real list \<Rightarrow> real \<Rightarrow> real" where
  "quantile_type7 samples q =
     (let srt = sort samples;
          pos = (real (length samples) - 1) * q;
          base = nat \<lfloor>pos\<rfloor>;
          rest = pos - real base
      in if base + 1 < length srt
         then srt ! base + rest * (srt ! (base + 1) - srt ! base)
         else srt ! base)"


text \<open>The sample sequence of a block as the specification words it: the priority fee of
  each transaction of the fee-market format (type 2), in the block's order.\<close>

definition priority_fees :: "block \<Rightarrow> real list" where
  "priority_fees blk =
     map (\<lambda>tx. real_of_int (tx_maxPriorityFeePerGas tx))
       (filter (\<lambda>tx. tx_type tx = Num 2) (transactions blk))"

text \<open>The estimator of the specification with each of its operations rounded to
  binary64.\<close>

definition quantile_type7_64 :: "real list \<Rightarrow> real \<Rightarrow> jsval" where
  "quantile_type7_64 samples q =
     (let srt = sort samples;
          pos = fl ((real (length samples) - 1) * q);
          base = nat \<lfloor>pos\<rfloor>;
          rest = js_sub64 (Num pos) (Num (real base))
      in if base + 1 < length srt
         then js_add64 (Num (srt ! base))
                (js_mul64 rest (js_sub64 (Num (srt ! (base + 1))) (Num (srt ! base))))
         else Num (srt ! base))"

text \<open>A real number that is a finite double, and the samples and \<open>q\<close> for which no
  operation of the estimator rounds.\<close>

definition is_double :: "real \<Rightarrow> bool" where
  "is_double x = (to_Number x = Num x)"

definition exact_steps :: "real list \<Rightarrow> real \<Rightarrow> bool" where
  "exact_steps samples q =
     (let srt = sort samples;
          pos = (real (length samples) - 1) * q;
          base = nat \<lfloor>pos\<rfloor>;
          rest = pos - real base
      in is_double pos \<and> is_double rest
         \<and> (if base + 1 < length srt
             then is_double (srt ! (base + 1) - srt ! base)
                  \<and> is_double (rest * (srt ! (base + 1) - srt ! base))
                  \<and> is_double (srt ! base + rest * (srt ! (base + 1) - srt ! base))
             else True))"

section \<open>A window of blocks to evaluate on\<close>

text \<open>The scenario of the specification: the four blocks 16308999 to 16309002 with
  the base fees and gas figures of the repository's README, each with eleven
  transactions of type 2 whose priority fees have the scenario's tiers as their 0.3,
  0.6 and 0.9 quantiles, and a pending base fee of 13969109554.\<close>

definition type2_txs :: "int list \<Rightarrow> transaction list" where
  "type2_txs fees = map (\<lambda>fee. \<lparr> tx_type = Num 2, tx_maxPriorityFeePerGas = fee \<rparr>) fees"

definition scenario_block :: "int \<Rightarrow> block" where
  "scenario_block j =
     (if j = 16308999 then
        \<lparr> number = 16308999, baseFeePerGas = 13969109554, gasUsed = 19902600, gasLimit = 30000000,
          transactions = \<lparr> tx_type = Num 0, tx_maxPriorityFeePerGas = 0 \<rparr> #
            type2_txs [2000000000, 1000000000, 4414699130, 1500000000, 9000000000, 1200000000,
                       1600000000, 3000000000, 1500000000, 2000000000, 4000000000] \<rparr>
      else if j = 16309000 then
        \<lparr> number = 16309000, baseFeePerGas = 14539817524, gasUsed = 8300280, gasLimit = 30000000,
          transactions =
            type2_txs [1500000000, 2000000000, 1500000000, 100000000, 1500000000, 2500000000,
                       1500000000, 1800000000, 1500000000, 2000000000, 1500000000] \<rparr>
      else if j = 16309001 then
        \<lparr> number = 16309001, baseFeePerGas = 13728044972, gasUsed = 8581677, gasLimit = 30000000,
          transactions =
            type2_txs [3000000000, 1000000000, 1500000000, 2500000000, 1500000000, 1700000000,
                       1900000000, 1000000000, 2000000000, 1500000000, 2500000000] \<rparr>
      else
        \<lparr> number = 16309002, baseFeePerGas = 12993786416, gasUsed = 27208975, gasLimit = 30000000,
          transactions =
            type2_txs [1500000000, 5000000000, 1500000000, 2000000000, 1500000000, 1000000000,
                       1500000000, 2500000000, 1500000000, 2000000000, 1500000000] \<rparr>)"

definition scenario_provider :: provider where
  "scenario_provider =
     \<lparr> getBlockNumber = Inr 16309003,
       getBlockWithTransactions =
         (\<lambda>j. if 16308999 \<le> j \<and> j \<le> 16309002 then Inr (scenario_block j)
              else Inl SourceUnavailable),
       getBlock_pending = Inr 13969109554 \<rparr>"

text \<open>A window on which rounding shows: blocks 1 to 4 hold two transactions of type 2
  each, block 5 is the block whose number the provider reports, and the pending base
  fee is 100.\<close>

definition rounding_window :: provider where
  "rounding_window =
     \<lparr> getBlockNumber = Inr 5,
       getBlockWithTransactions =
         (\<lambda>j. Inr \<lparr> number = j, baseFeePerGas = 100, gasUsed = 42000, gasLimit = 30000000,
                    transactions =
                      type2_txs (if j = 1 then [1, 10] else if j = 2 then [9, 24]
                                 else if j = 3 then [11, 18] else if j = 4 then [5, 14]
                                 else [1000]) \<rparr>),
       getBlock_pending = Inr 100 \<rparr>"

section \<open>The quantile\<close>

lemma pos_bounds:
  assumes "xs \<noteq> []" "0 \<le> q" "q \<le> 1"
  shows "0 \<le> (real (length xs) - 1) * q" "(real (length xs) - 1) * q \<le> real (length xs) - 1"
proof -
  have n: "0 \<le> real (length xs) - 1" using assms(1) by (cases xs) simp_all
  show "0 \<le> (real (length xs) - 1) * q" using n assms(2) by simp
  show "(real (length xs) - 1) * q \<le> real (length xs) - 1"
    using mult_left_mono [OF assms(3) n] by simp
qed












section \<open>The caller's array\<close>

lemma quantile_snd: "snd (quantile arr q) = sort arr"
  by (simp add: quantile_def asc_def Let_def)

lemma sort_id_iff: "(sort arr = arr) = sorted (arr::real list)"
  by (metis sorted_sort sorted_sort_id)

text \<open>
  C3, as the code has it. \<open>quantile\<close> sorts the caller's array in place: after the call
  the array holds the same elements (with their multiplicities) in ascending order,
  whatever \<open>q\<close> is, and it is the array it was before exactly when that was ascending
  already.
\<close>

theorem quantile_sorts_in_place:
  "snd (quantile arr q) = sort arr
   \<and> sorted (snd (quantile arr q))
   \<and> mset (snd (quantile arr q)) = mset arr
   \<and> ((snd (quantile arr q) = arr) = sorted arr)"
  by (simp add: quantile_snd sort_id_iff)

text \<open>The claim as stated (the caller's array holds the same elements in the same
  order after the call) fails on \<open>[3, 1, 2]\<close>, which the call leaves as \<open>[1, 2, 3]\<close>.\<close>

theorem quantile_mutates_counterexample:
  "snd (quantile [3, 1, 2] (1 / 2)) = [1, 2, 3]
   \<and> snd (quantile [3, 1, 2] (1 / 2)) \<noteq> [3, 1, 2]"
  by (simp add: quantile_snd)

section \<open>Empty input\<close>

lemma js_index_Nil: "js_index [] i = Undefined"
  by (auto simp: js_index_def)

lemma quantile_empty: "quantile [] q = (Undefined, [])"
  by (simp add: quantile_def asc_def js_index_Nil Let_def)

lemma mean_empty: "mean [] = NaN"
  by (simp add: mean_def sum_arr_def signed_inf_def)

text \<open>
  C4, as the code has it. Neither function raises on the empty array. \<open>mean([])\<close>
  evaluates the division \<open>0 / 0\<close>, which no test of the length guards, and returns its
  rounded value, \<open>NaN\<close>; \<open>quantile([], q)\<close> reads the empty array out of range and
  returns \<open>undefined\<close> for every \<open>q\<close>, leaving the array empty.
\<close>

theorem empty_input_values:
  "mean [] = Math_round (js_div (Num 0) (Num 0))
   \<and> mean [] = NaN
   \<and> quantile [] q = (Undefined, [])"
  by (simp add: mean_def sum_arr_def signed_inf_def quantile_empty)

text \<open>The claim as stated fails on \<open>mean([])\<close>: the quotient of the sum by the length
  is the unguarded \<open>0 / 0\<close>, and the value returned is the Number \<open>NaN\<close>.\<close>

theorem mean_empty_counterexample:
  "js_div (sum_arr []) (Num (real (length ([]::jsval list)))) = js_div (Num 0) (Num 0)
   \<and> mean [] = NaN"
  by (simp add: mean_def sum_arr_def signed_inf_def)

section \<open>Sum and mean of finite Numbers\<close>




section \<open>Monotonicity of the quantile\<close>








section \<open>The summary of a block\<close>







lemma map_toNumber_Inr:
  "map_toNumber txs = Inr arr \<Longrightarrow> arr = map (\<lambda>tx. real_of_int (tx_maxPriorityFeePerGas tx)) txs"
  by (induction txs arbitrary: arr) (auto simp: toNumber_def split: sum.splits if_splits)





section \<open>The window of blocks\<close>

declare fetch_blocks.simps [simp del]

lemma fetch_blocks_success:
  assumes "\<forall>j. i \<le> j \<and> j < n \<longrightarrow>
             getBlockWithTransactions p j = Inr (raw j) \<and> dataFormatter (raw j) = Inr (fmt j)"
  shows "fetch_blocks p i n acc = Inr (acc @ map fmt [i..n - 1])"
  using assms
proof (induction p i n acc rule: fetch_blocks.induct)
  case (1 p i n acc)
  show ?case
  proof (cases "i < n")
    case True
    have here: "getBlockWithTransactions p i = Inr (raw i)" "dataFormatter (raw i) = Inr (fmt i)"
      using "1.prems" True by simp_all
    have "fetch_blocks p (i + 1) n (acc @ [fmt i]) = Inr ((acc @ [fmt i]) @ map fmt [i + 1..n - 1])"
      using "1.IH" [OF True here] "1.prems" by simp
    moreover have "[i..n - 1] = i # [i + 1..n - 1]"
      using True by (simp add: upto_rec1)
    ultimately show ?thesis
      using True here by (simp add: fetch_blocks.simps [of p i n acc])
  next
    case False
    then show ?thesis by (simp add: fetch_blocks.simps [of p i n acc])
  qed
qed




section \<open>The estimate\<close>

lemma window_upto: "[N - 4..N - 1] = [N - 4, N - 3, N - 2, N - (1::int)]"
proof -
  have "[N - 4..N - 1] = (N - 4) # [N - 3..N - 1]" by (simp add: upto_rec1)
  also have "[N - 3..N - 1] = (N - 3) # [N - 2..N - 1]" by (simp add: upto_rec1)
  also have "[N - 2..N - 1] = (N - 2) # [N - 1..N - 1]" by (simp add: upto_rec1)
  finally show ?thesis by simp
qed

lemma gasEstimator_success:
  assumes N: "getBlockNumber p = Inr N"
    and win: "\<forall>j. N - 4 \<le> j \<and> j < N \<longrightarrow>
             getBlockWithTransactions p j = Inr (raw j) \<and> dataFormatter (raw j) = Inr (fmt j)"
    and pend: "getBlock_pending p = Inr pending" "toNumber pending = Inr baseFee"
  shows "gasEstimator p = Inr
           \<lparr> slow = js_add (Num baseFee)
               (mean (map (\<lambda>j. js_index (maxPriorityFeePerGas (fmt j)) 0) [N - 4, N - 3, N - 2, N - 1])),
             average = js_add (Num baseFee)
               (mean (map (\<lambda>j. js_index (maxPriorityFeePerGas (fmt j)) 1) [N - 4, N - 3, N - 2, N - 1])),
             fast = js_add (Num baseFee)
               (mean (map (\<lambda>j. js_index (maxPriorityFeePerGas (fmt j)) 2) [N - 4, N - 3, N - 2, N - 1])) \<rparr>"
proof -
  have "fetch_blocks p (N - 4) N [] = Inr ([] @ map fmt [N - 4..N - 1])"
    using win by (rule fetch_blocks_success)
  then have "fetch_blocks p (N - 4) N [] = Inr [fmt (N - 4), fmt (N - 3), fmt (N - 2), fmt (N - 1)]"
    by (simp add: window_upto)
  then show ?thesis
    using N pend by (simp add: gasEstimator_def)
qed

lemma gasEstimator_four:
  assumes N: "getBlockNumber p = Inr N"
    and raws: "map (getBlockWithTransactions p) [N - 4, N - 3, N - 2, N - 1] = map Inr [r0, r1, r2, r3]"
    and fmts: "map dataFormatter [r0, r1, r2, r3] = map Inr [s0, s1, s2, s3]"
    and pend: "getBlock_pending p = Inr pending"
    and base: "toNumber pending = Inr baseFee"
  shows "gasEstimator p = Inr
           \<lparr> slow = js_add (Num baseFee)
               (mean (map (\<lambda>s. js_index (maxPriorityFeePerGas s) 0) [s0, s1, s2, s3])),
             average = js_add (Num baseFee)
               (mean (map (\<lambda>s. js_index (maxPriorityFeePerGas s) 1) [s0, s1, s2, s3])),
             fast = js_add (Num baseFee)
               (mean (map (\<lambda>s. js_index (maxPriorityFeePerGas s) 2) [s0, s1, s2, s3])) \<rparr>"
proof -
  define raw where "raw j = (if j = N - 4 then r0 else if j = N - 3 then r1
                             else if j = N - 2 then r2 else r3)" for j
  define fmt where "fmt j = (if j = N - 4 then s0 else if j = N - 3 then s1
                             else if j = N - 2 then s2 else s3)" for j
  have win: "\<forall>j. N - 4 \<le> j \<and> j < N \<longrightarrow>
             getBlockWithTransactions p j = Inr (raw j) \<and> dataFormatter (raw j) = Inr (fmt j)"
  proof (intro allI impI)
    fix j assume "N - 4 \<le> j \<and> j < N"
    then consider "j = N - 4" | "j = N - 3" | "j = N - 2" | "j = N - 1" by linarith
    then show "getBlockWithTransactions p j = Inr (raw j) \<and> dataFormatter (raw j) = Inr (fmt j)"
      using raws fmts by cases (simp_all add: raw_def fmt_def)
  qed
  show ?thesis
    using gasEstimator_success [OF N win pend base] by (simp add: fmt_def)
qed






section \<open>The scenario, evaluated\<close>








lemma scenario_number: "getBlockNumber scenario_provider = Inr 16309003"
  by (simp add: scenario_provider_def)

lemma scenario_raws:
  "map (getBlockWithTransactions scenario_provider)
     [16309003 - 4, 16309003 - 3, 16309003 - 2, 16309003 - 1]
   = map Inr [scenario_block 16308999, scenario_block 16309000,
              scenario_block 16309001, scenario_block 16309002]"
  by (simp add: scenario_provider_def)

lemma scenario_pending:
  "getBlock_pending scenario_provider = Inr 13969109554"
  "toNumber 13969109554 = Inr 13969109554"
  by (simp_all add: scenario_provider_def toNumber_def)

section \<open>A window without fee-market transactions\<close>

lemma dataFormatter_no_type2:
  assumes none: "\<forall>tx\<in>set (transactions r). tx_type tx \<noteq> Num 2"
    and safe: "\<bar>baseFeePerGas r\<bar> < 2 ^ 53" "\<bar>gasUsed r\<bar> < 2 ^ 53" "\<bar>gasLimit r\<bar> < 2 ^ 53"
  shows "dataFormatter r = Inr
           \<lparr> summary_number = number r,
             summary_baseFeePerGas = real_of_int (baseFeePerGas r),
             maxPriorityFeePerGas = [Undefined, Undefined, Undefined],
             gasUsedRatio = js_div (Num (real_of_int (gasUsed r))) (Num (real_of_int (gasLimit r))) \<rparr>"
proof -
  have "filter (\<lambda>tx. tx_type tx = Num 2) (transactions r) = []"
    using none by (simp add: filter_empty_conv)
  then show ?thesis
    using safe by (simp add: dataFormatter_def toNumber_def quantile_empty)
qed

text \<open>
  C9. When none of the four blocks of the window holds a transaction of type 2 (the
  fetches succeed and the header fields are safe integers), the run does not fail:
  \<open>dataFormatter\<close> returns for each block a summary whose tiers are the three
  \<open>undefined\<close> that \<open>quantile\<close> gives on the empty array, and \<open>gasEstimator\<close> returns
  the estimate that \<open>mean\<close> makes of them, \<open>NaN\<close> in each of \<open>slow\<close>, \<open>average\<close> and
  \<open>fast\<close>. The result is a function of the window.
\<close>

theorem empty_window_estimate:
  assumes N: "getBlockNumber p = Inr N"
    and raws: "map (getBlockWithTransactions p) [N - 4, N - 3, N - 2, N - 1] = map Inr [r0, r1, r2, r3]"
    and none: "\<forall>r\<in>set [r0, r1, r2, r3]. \<forall>tx\<in>set (transactions r). tx_type tx \<noteq> Num 2"
    and safe: "\<forall>r\<in>set [r0, r1, r2, r3].
                 \<bar>baseFeePerGas r\<bar> < 2 ^ 53 \<and> \<bar>gasUsed r\<bar> < 2 ^ 53 \<and> \<bar>gasLimit r\<bar> < 2 ^ 53"
    and pend: "getBlock_pending p = Inr pending"
    and base: "\<bar>pending\<bar> < 2 ^ 53"
  shows "gasEstimator p = Inr \<lparr> slow = NaN, average = NaN, fast = NaN \<rparr>
       \<and> (\<forall>r\<in>set [r0, r1, r2, r3]. \<exists>s. dataFormatter r = Inr s
              \<and> maxPriorityFeePerGas s = [Undefined, Undefined, Undefined])"
proof -
  define fmt where "fmt r =
           \<lparr> summary_number = number r,
             summary_baseFeePerGas = real_of_int (baseFeePerGas r),
             maxPriorityFeePerGas = [Undefined, Undefined, Undefined],
             gasUsedRatio = js_div (Num (real_of_int (gasUsed r))) (Num (real_of_int (gasLimit r))) \<rparr>"
    for r :: block
  have each: "dataFormatter r = Inr (fmt r)" if mem: "r \<in> set [r0, r1, r2, r3]" for r
    unfolding fmt_def using none safe mem by (intro dataFormatter_no_type2) auto
  have fmts: "map dataFormatter [r0, r1, r2, r3] = map Inr [fmt r0, fmt r1, fmt r2, fmt r3]"
    using each by simp
  have tn: "toNumber pending = Inr (real_of_int pending)"
    using base by (simp add: toNumber_def)
  have "gasEstimator p = Inr \<lparr> slow = NaN, average = NaN, fast = NaN \<rparr>"
    using gasEstimator_four [OF N raws fmts pend tn]
    by (simp add: fmt_def mean_def sum_arr_def js_index_def)
  moreover have "\<forall>r\<in>set [r0, r1, r2, r3]. \<exists>s. dataFormatter r = Inr s
              \<and> maxPriorityFeePerGas s = [Undefined, Undefined, Undefined]"
  proof
    fix r assume "r \<in> set [r0, r1, r2, r3]"
    then have "dataFormatter r = Inr (fmt r)" by (rule each)
    then show "\<exists>s. dataFormatter r = Inr s
              \<and> maxPriorityFeePerGas s = [Undefined, Undefined, Undefined]"
      by (simp add: fmt_def)
  qed
  ultimately show ?thesis by blast
qed

theorem empty_window_estimate_witness:
  "gasEstimator
     \<lparr> getBlockNumber = Inr 20,
       getBlockWithTransactions =
         (\<lambda>j. Inr \<lparr> number = j, baseFeePerGas = 1000, gasUsed = 21000, gasLimit = 30000000,
                    transactions = (if j = 17 then []
                                    else [\<lparr> tx_type = Num 0, tx_maxPriorityFeePerGas = 0 \<rparr>]) \<rparr>),
       getBlock_pending = Inr 1000 \<rparr>
   = Inr \<lparr> slow = NaN, average = NaN, fast = NaN \<rparr>"
proof -
  let ?blk = "\<lambda>j::int. \<lparr> number = j, baseFeePerGas = 1000, gasUsed = 21000, gasLimit = 30000000,
                    transactions = (if j = 17 then []
                                    else [\<lparr> tx_type = Num 0, tx_maxPriorityFeePerGas = 0 \<rparr>]) \<rparr>"
  let ?p = "\<lparr> getBlockNumber = Inr 20,
       getBlockWithTransactions = (\<lambda>j. Inr (?blk j)),
       getBlock_pending = Inr 1000 \<rparr>"
  have "gasEstimator ?p = Inr \<lparr> slow = NaN, average = NaN, fast = NaN \<rparr>
       \<and> (\<forall>r\<in>set [?blk 16, ?blk 17, ?blk 18, ?blk 19]. \<exists>s. dataFormatter r = Inr s
              \<and> maxPriorityFeePerGas s = [Undefined, Undefined, Undefined])"
    by (rule empty_window_estimate [where N = 20 and pending = 1000]) simp_all
  then show ?thesis by blast
qed

section \<open>The order of the three bids\<close>




section \<open>Rounding to binary64\<close>

declare binade_hi.simps [simp del] binade_lo.simps [simp del]

lemma rne_of_int: "rne (of_int n) = n"
  by (simp add: rne_def)

lemma rne_cases: "rne y = \<lfloor>y\<rfloor> \<or> rne y = \<lfloor>y\<rfloor> + 1 \<and> y - of_int \<lfloor>y\<rfloor> \<ge> 1 / 2"
  by (auto simp: rne_def Let_def)

lemma rne_le:
  assumes "y \<le> of_int K"
  shows "rne y \<le> K"
proof -
  have f: "\<lfloor>y\<rfloor> \<le> K" using assms by (simp add: floor_le_iff)
  show ?thesis
  proof (cases "y = of_int K")
    case True
    then show ?thesis by (simp add: rne_of_int)
  next
    case False
    then have "y < of_int K" using assms by simp
    then have "\<lfloor>y\<rfloor> < K" by (simp add: floor_less_iff)
    then show ?thesis using rne_cases [of y] by auto
  qed
qed

lemma rne_nonneg: "0 \<le> y \<Longrightarrow> 0 \<le> rne y"
  using rne_cases [of y] by (auto simp: zero_le_floor) 

lemma binade_hi_bounds:
  "1 \<le> x \<Longrightarrow> 0 \<le> binade_hi x \<and> 2 ^ nat (binade_hi x) \<le> x \<and> x < 2 * 2 ^ nat (binade_hi x)"
proof (induction x rule: binade_hi.induct)
  case (1 x)
  show ?case
  proof (cases "2 \<le> x")
    case True
    then have ih: "0 \<le> binade_hi (x / 2) \<and> 2 ^ nat (binade_hi (x / 2)) \<le> x / 2
                   \<and> x / 2 < 2 * 2 ^ nat (binade_hi (x / 2))"
      using "1.IH" by simp
    have e: "binade_hi x = binade_hi (x / 2) + 1"
      using True by (simp add: binade_hi.simps [of x])
    have nn: "0 \<le> binade_hi (x / 2)" using ih by blast
    have n: "nat (binade_hi (x / 2) + 1) = Suc (nat (binade_hi (x / 2)))"
      using nn by linarith
    have "2 ^ nat (binade_hi (x / 2)) \<le> x / 2" "x / 2 < 2 * 2 ^ nat (binade_hi (x / 2))"
      using ih by blast+
    then have "2 * 2 ^ nat (binade_hi (x / 2)) \<le> x" "x < 2 * (2 * 2 ^ nat (binade_hi (x / 2)))"
      by linarith+
    then show ?thesis using nn by (simp add: e n)
  next
    case False
    then show ?thesis using "1.prems" by (simp add: binade_hi.simps [of x])
  qed
qed

lemma binade_lo_le: "binade_lo x e \<le> e"
proof (induction x e rule: binade_lo.induct)
  case (1 x e)
  show ?case
  proof (cases "x < 1 \<and> - 1022 < e")
    case True
    then have "binade_lo (2 * x) (e - 1) \<le> e - 1" using "1.IH" by simp
    then show ?thesis using True by (simp add: binade_lo.simps [of x e])
  next
    case False
    then show ?thesis by (auto simp: binade_lo.simps [of x e])
  qed
qed


lemma pow2_pos: "0 < pow2 k"
  by (simp add: pow2_def)

lemma binade_abs: "binade \<bar>x\<bar> = binade x"
  by (simp add: binade_def)

lemma int_over_pow2:
  assumes "k \<le> 0"
  shows "real_of_int m / pow2 k = of_int (m * 2 ^ nat (- k))"
  using assms by (simp add: pow2_def)

lemma quantum_divides:
  assumes x0: "0 < x" and xm: "x \<le> of_int m" and m: "m \<le> 2 ^ 53"
  shows "\<exists>K. real_of_int m / pow2 (binade x - 52) = of_int K"
proof (cases "1 \<le> x")
  case False
  then have "binade x = binade_lo x 0" using x0 by (simp add: binade_def)
  then have "binade x - 52 \<le> 0" using binade_lo_le [of x 0] by simp
  then show ?thesis using int_over_pow2 by blast
next
  case True
  then have b: "binade x = binade_hi x" by (simp add: binade_def)
  note hb = binade_hi_bounds [OF True]
  have "(2::real) ^ nat (binade_hi x) \<le> 2 ^ 53"
  proof -
    have "(2::real) ^ nat (binade_hi x) \<le> x" using hb by blast
    also have "x \<le> of_int m" by (rule xm)
    also have "real_of_int m \<le> 2 ^ 53" using m by (metis of_int_le_iff of_int_numeral of_int_power)
    finally show ?thesis .
  qed
  then have le53: "nat (binade_hi x) \<le> 53"
    by (rule power_le_imp_le_exp [rotated]) simp
  show ?thesis
  proof (cases "binade_hi x \<le> 52")
    case True
    then have "binade x - 52 \<le> 0" using b by simp
    then show ?thesis using int_over_pow2 by blast
  next
    case False
    then have e: "binade_hi x = 53" using le53 hb by linarith
    then have "(2::real) ^ 53 \<le> x" using hb by simp
    then have "(2::real) ^ 53 \<le> of_int m" using xm by linarith
    then have "(2::int) ^ 53 \<le> m" by (metis of_int_le_iff of_int_numeral of_int_power)
    then have "m = 2 ^ 53" using m by simp
    then have "real_of_int m / pow2 (binade x - 52) = of_int (2 ^ 52)"
      by (simp add: b e pow2_def)
    then show ?thesis by blast
  qed
qed

lemma fl_bounds:
  assumes x0: "0 \<le> x" and xm: "x \<le> of_int m" and m: "m \<le> 2 ^ 53"
  shows "0 \<le> fl x \<and> fl x \<le> of_int m"
proof (cases "x = 0")
  case True
  then show ?thesis using xm by (simp add: fl_def)
next
  case False
  then have pos: "0 < x" using x0 by simp
  define Q where "Q = pow2 (binade x - 52)"
  have Q: "0 < Q" by (simp add: Q_def pow2_pos)
  obtain K where K: "real_of_int m / Q = of_int K"
    using quantum_divides [OF pos xm m] Q_def by blast
  have f: "fl x = of_int (rne (x / Q)) * Q"
    using False by (simp add: fl_def Q_def Let_def)
  have "x / Q \<le> real_of_int m / Q" using xm Q by (simp add: divide_right_mono)
  then have "rne (x / Q) \<le> K" using K by (intro rne_le) simp
  then have "real_of_int (rne (x / Q)) * Q \<le> of_int K * Q" using Q by simp
  also have "\<dots> = of_int m" using K Q by (simp add: field_simps)
  finally have up: "fl x \<le> of_int m" using f by simp
  have "0 \<le> rne (x / Q)" using x0 Q by (intro rne_nonneg) simp
  then have "0 \<le> fl x" using f Q by simp
  then show ?thesis using up by simp
qed

lemma fl_of_int:
  assumes "\<bar>k\<bar> \<le> 2 ^ 53"
  shows "fl (of_int k) = of_int k"
proof (cases "k = 0")
  case True
  then show ?thesis by (simp add: fl_def)
next
  case False
  define Q where "Q = pow2 (binade (real_of_int k) - 52)"
  have Q: "0 < Q" by (simp add: Q_def pow2_pos)
  have "0 < \<bar>real_of_int k\<bar>" using False by simp
  moreover have "\<bar>real_of_int k\<bar> \<le> of_int \<bar>k\<bar>" by simp
  ultimately obtain K where K: "real_of_int \<bar>k\<bar> / pow2 (binade \<bar>real_of_int k\<bar> - 52) = of_int K"
    using quantum_divides [of "\<bar>real_of_int k\<bar>" "\<bar>k\<bar>"] assms by blast
  then have K': "real_of_int \<bar>k\<bar> / Q = of_int K" by (simp add: Q_def binade_abs)
  have "\<exists>J. real_of_int k / Q = of_int J"
  proof (cases "0 \<le> k")
    case True
    then show ?thesis using K' by auto
  next
    case False
    then have "real_of_int k / Q = - (real_of_int \<bar>k\<bar> / Q)" by simp
    also have "\<dots> = of_int (- K)" using K' by simp
    finally show ?thesis by blast
  qed
  then obtain J where J: "real_of_int k / Q = of_int J" by blast
  have "fl (of_int k) = of_int (rne (real_of_int k / Q)) * Q"
    using False by (simp add: fl_def Q_def Let_def)
  also have "\<dots> = of_int J * Q" by (simp add: J rne_of_int)
  also have "\<dots> = of_int k" using J Q by (simp add: field_simps)
  finally show ?thesis .
qed

lemma to_Number_of_int:
  assumes "\<bar>k\<bar> \<le> 2 ^ 53"
  shows "to_Number (of_int k) = Num (of_int k)"
proof -
  have "\<bar>real_of_int k\<bar> \<le> 2 ^ 53"
    using assms by (metis of_int_abs of_int_le_iff of_int_numeral of_int_power)
  also have "(2::real) ^ 53 < 2 ^ 1024" by simp
  finally show ?thesis using fl_of_int [OF assms] by (simp add: to_Number_def)
qed

lemma is_double_fl: "is_double x \<Longrightarrow> fl x = x"
  by (auto simp: is_double_def to_Number_def Let_def signed_inf_def split: if_splits)

lemma is_double_of_int: "\<bar>k\<bar> \<le> 2 ^ 53 \<Longrightarrow> is_double (of_int k)"
  by (simp add: is_double_def to_Number_of_int)

text \<open>Rules that evaluate a rounding on a numeral; each applies only when its
  condition is decided.\<close>

lemma binade_hi_step: "2 \<le> x \<Longrightarrow> binade_hi x = binade_hi (x / 2) + 1"
  by (simp add: binade_hi.simps [of x])

lemma binade_hi_stop: "x < 2 \<Longrightarrow> binade_hi x = 0"
  by (simp add: binade_hi.simps [of x])

lemma binade_lo_step: "x < 1 \<Longrightarrow> - 1022 < e \<Longrightarrow> binade_lo x e = binade_lo (2 * x) (e - 1)"
  by (simp add: binade_lo.simps [of x e])

lemma binade_lo_stop: "1 \<le> x \<Longrightarrow> binade_lo x e = e"
  by (simp add: binade_lo.simps [of x e])

lemma fl_zero: "fl 0 = 0"
  by (simp add: fl_def)

lemma fl_nonzero:
  "x \<noteq> 0 \<Longrightarrow> fl x = of_int (rne (x / pow2 (binade x - 52))) * pow2 (binade x - 52)"
  by (simp add: fl_def Let_def)

lemma binade_ge1: "1 \<le> \<bar>x\<bar> \<Longrightarrow> binade x = binade_hi \<bar>x\<bar>"
  by (simp add: binade_def)

lemma binade_lt1: "\<bar>x\<bar> < 1 \<Longrightarrow> binade x = binade_lo \<bar>x\<bar> 0"
  by (simp add: binade_def)

lemma to_Number_finite: "\<bar>fl x\<bar> < 2 ^ 1024 \<Longrightarrow> to_Number x = Num (fl x)"
  by (simp add: to_Number_def)

lemmas fl_eval = fl_zero fl_nonzero binade_ge1 binade_lt1 pow2_def rne_def to_Number_finite
  binade_hi_step binade_hi_stop binade_lo_step binade_lo_stop

section \<open>The binary64 sum\<close>

lemma foldl_js_add64_int:
  "\<bar>a\<bar> + (\<Sum>k\<leftarrow>ks. \<bar>k\<bar>) \<le> 2 ^ 53 \<Longrightarrow>
     foldl js_add64 (Num (of_int a)) (map (\<lambda>k. Num (of_int k)) ks) = Num (of_int (a + sum_list ks))"
proof (induction ks arbitrary: a)
  case Nil
  then show ?case by simp
next
  case (Cons k ks)
  have s0: "0 \<le> (\<Sum>k\<leftarrow>ks. \<bar>k\<bar>)" by (rule sum_list_nonneg) auto
  have "\<bar>a + k\<bar> \<le> 2 ^ 53" using Cons.prems s0 by simp
  then have step: "js_add64 (Num (of_int a)) (Num (of_int k)) = Num (of_int (a + k))"
    using to_Number_of_int [of "a + k"] by simp
  have "\<bar>a + k\<bar> + (\<Sum>k\<leftarrow>ks. \<bar>k\<bar>) \<le> 2 ^ 53" using Cons.prems by simp
  then show ?case using Cons.IH [of "a + k"] step by (simp add: add.assoc)
qed

lemma sum_arr64_int:
  assumes "(\<Sum>k\<leftarrow>ks. \<bar>k\<bar>) \<le> 2 ^ 53"
  shows "sum_arr64 (map (\<lambda>k. Num (of_int k)) ks) = Num (of_int (sum_list ks))"
  using foldl_js_add64_int [of 0 ks] assms by (simp add: sum_arr64_def)

lemma perm_sums:
  assumes "mset ks = mset (ks'::int list)"
  shows "sum_list ks' = sum_list ks" "(\<Sum>k\<leftarrow>ks'. \<bar>k\<bar>) = (\<Sum>k\<leftarrow>ks. \<bar>k\<bar>)"
proof -
  show "sum_list ks' = sum_list ks"
    using assms by (metis sum_mset_sum_list)
  have "mset (map abs ks') = mset (map abs ks)" using assms by (metis mset_map)
  then show "(\<Sum>k\<leftarrow>ks'. \<bar>k\<bar>) = (\<Sum>k\<leftarrow>ks. \<bar>k\<bar>)"
    by (metis sum_mset_sum_list)
qed

text \<open>
  C8, as the code has it. \<open>sum([])\<close> is 0 and \<open>sum([a])\<close> is \<open>a\<close> for every Number
  \<open>a\<close> (a finite double, an infinity or \<open>NaN\<close>). The additions are binary64 additions
  made from left to right: for integer samples whose absolute values sum to at most
  \<open>2 ^ 53\<close> none of them rounds, \<open>sum\<close> is the exact sum and every reordering of the
  samples has the same sum.
\<close>

theorem sum64_properties:
  "sum_arr64 [] = Num 0
   \<and> (is_double a \<longrightarrow> sum_arr64 [Num a] = Num a)
   \<and> (v \<in> {PosInfinity, NegInfinity, NaN} \<longrightarrow> sum_arr64 [v] = v)
   \<and> ((\<Sum>k\<leftarrow>ks. \<bar>k\<bar>) \<le> 2 ^ 53 \<and> mset ks = mset ks' \<longrightarrow>
        sum_arr64 (map (\<lambda>k. Num (of_int k)) ks) = Num (of_int (sum_list ks))
        \<and> sum_arr64 (map (\<lambda>k. Num (of_int k)) ks') = sum_arr64 (map (\<lambda>k. Num (of_int k)) ks))"
proof (intro conjI impI)
  show "sum_arr64 [] = Num 0" by (simp add: sum_arr64_def)
  show "sum_arr64 [Num a] = Num a" if "is_double a"
    using that by (simp add: sum_arr64_def is_double_def)
  show "sum_arr64 [v] = v" if "v \<in> {PosInfinity, NegInfinity, NaN}"
    using that by (auto simp: sum_arr64_def)
next
  assume h: "(\<Sum>k\<leftarrow>ks. \<bar>k\<bar>) \<le> 2 ^ 53 \<and> mset ks = mset ks'"
  then have a: "sum_arr64 (map (\<lambda>k. Num (of_int k)) ks) = Num (of_int (sum_list ks))"
    by (simp add: sum_arr64_int)
  show "sum_arr64 (map (\<lambda>k. Num (of_int k)) ks) = Num (of_int (sum_list ks))" by (rule a)
  have "(\<Sum>k\<leftarrow>ks'. \<bar>k\<bar>) \<le> 2 ^ 53" using h perm_sums(2) [of ks ks'] by simp
  then have "sum_arr64 (map (\<lambda>k. Num (of_int k)) ks') = Num (of_int (sum_list ks'))"
    by (simp add: sum_arr64_int)
  then show "sum_arr64 (map (\<lambda>k. Num (of_int k)) ks') = sum_arr64 (map (\<lambda>k. Num (of_int k)) ks)"
    using a h perm_sums(1) [of ks ks'] by simp
qed

theorem sum64_properties_witness:
  "is_double (1 / 2) \<and> sum_arr64 [Num (1 / 2)] = Num (1 / 2)
   \<and> sum_arr64 [PosInfinity] = PosInfinity
   \<and> (\<Sum>k\<leftarrow>[1500000000, 2000000000, 4414699130]. \<bar>k\<bar>) \<le> (2 ^ 53 :: int)
   \<and> mset [1500000000, 2000000000, 4414699130] = mset [4414699130, 1500000000, 2000000000 :: int]
   \<and> sum_arr64 [Num 1500000000, Num 2000000000, Num 4414699130] = Num 7914699130
   \<and> sum_arr64 [Num 4414699130, Num 1500000000, Num 2000000000] = Num 7914699130"
proof -
  let ?ks = "[1500000000, 2000000000, 4414699130] :: int list"
  let ?ks' = "[4414699130, 1500000000, 2000000000] :: int list"
  have h1: "is_double (1 / 2)" by (simp add: is_double_def fl_eval)
  have h2: "PosInfinity \<in> {PosInfinity, NegInfinity, NaN}" by simp
  have h3: "(\<Sum>k\<leftarrow>?ks. \<bar>k\<bar>) \<le> 2 ^ 53 \<and> mset ?ks = mset ?ks'" by simp
  from sum64_properties [of "1 / 2" PosInfinity ?ks ?ks'] h1 h2 h3
  have "sum_arr64 [Num (1 / 2)] = Num (1 / 2) \<and> sum_arr64 [PosInfinity] = PosInfinity
        \<and> sum_arr64 (map (\<lambda>k. Num (of_int k)) ?ks) = Num (of_int (sum_list ?ks))
        \<and> sum_arr64 (map (\<lambda>k. Num (of_int k)) ?ks') = sum_arr64 (map (\<lambda>k. Num (of_int k)) ?ks)"
    by blast
  then show ?thesis using h1 h3 by simp
qed

text \<open>The claim as stated (every permutation has the same sum) fails on the safe
  integers \<open>[2^53 - 1, 1, 1, 1]\<close>: in this order the sum stops at \<open>2^53\<close>, since
  \<open>2^53 + 1\<close> rounds back to \<open>2^53\<close>; with the large sample last it is \<open>2^53 + 2\<close>.\<close>

theorem sum64_reordering_counterexample:
  "mset [Num 9007199254740991, Num 1, Num 1, Num 1] = mset [Num 1, Num 1, Num 1, Num 9007199254740991]
   \<and> sum_arr64 [Num 9007199254740991, Num 1, Num 1, Num 1] = Num 9007199254740992
   \<and> sum_arr64 [Num 1, Num 1, Num 1, Num 9007199254740991] = Num 9007199254740994
   \<and> sum_arr64 [Num 9007199254740991, Num 1, Num 1, Num 1]
       \<noteq> sum_arr64 [Num 1, Num 1, Num 1, Num 9007199254740991]"
proof -
  have a: "sum_arr64 [Num 9007199254740991, Num 1, Num 1, Num 1] = Num 9007199254740992"
    by (simp add: sum_arr64_def fl_eval)
  have b: "sum_arr64 [Num 1, Num 1, Num 1, Num 9007199254740991] = Num 9007199254740994"
    by (simp add: sum_arr64_def fl_eval)
  show ?thesis by (simp add: a b)
qed

section \<open>The binary64 mean\<close>







section \<open>The binary64 quantile\<close>

lemma pos64:
  assumes ne: "samples \<noteq> []" and len: "length samples \<le> 2 ^ 32" and q0: "0 \<le> q" and q1: "q \<le> 1"
  shows "js_mul64 (Num (real (length samples) - 1)) (Num q)
           = Num (fl ((real (length samples) - 1) * q))"
    and "0 \<le> fl ((real (length samples) - 1) * q)"
    and "nat \<lfloor>fl ((real (length samples) - 1) * q)\<rfloor> < length samples"
proof -
  define m where "m = int (length samples) - 1"
  have mr: "real_of_int m = real (length samples) - 1" by (simp add: m_def)
  have m53: "m \<le> 2 ^ 53"
  proof -
    have "int (length samples) \<le> 2 ^ 32"
      using len by (metis of_nat_le_iff of_nat_numeral of_nat_power)
    then show ?thesis by (simp add: m_def)
  qed
  note pb = pos_bounds [OF ne q0 q1]
  have b: "0 \<le> fl ((real (length samples) - 1) * q)
           \<and> fl ((real (length samples) - 1) * q) \<le> of_int m"
    using fl_bounds [of "(real (length samples) - 1) * q" m] pb m53 by (simp add: mr)
  show "0 \<le> fl ((real (length samples) - 1) * q)" using b by simp
  have "\<bar>fl ((real (length samples) - 1) * q)\<bar> \<le> of_int m" using b by simp
  also have "real_of_int m \<le> 2 ^ 53"
    using m53 by (metis of_int_le_iff of_int_numeral of_int_power)
  also have "(2::real) ^ 53 < 2 ^ 1024" by simp
  finally show "js_mul64 (Num (real (length samples) - 1)) (Num q)
           = Num (fl ((real (length samples) - 1) * q))"
    by (simp add: to_Number_def)
  have "\<lfloor>fl ((real (length samples) - 1) * q)\<rfloor> \<le> \<lfloor>real_of_int m\<rfloor>"
    using b by (intro floor_mono) simp
  then have "\<lfloor>fl ((real (length samples) - 1) * q)\<rfloor> \<le> int (length samples) - 1"
    by (simp add: m_def)
  then show "nat \<lfloor>fl ((real (length samples) - 1) * q)\<rfloor> < length samples"
    using ne by (cases samples) auto
qed

lemma quantile64_eq_type7_64:
  assumes ne: "xs \<noteq> []" and len: "length xs \<le> 2 ^ 32" and q0: "0 \<le> q" and q1: "q \<le> 1"
  shows "fst (quantile64 xs q) = quantile_type7_64 xs q"
proof -
  note p = pos64 [OF ne len q0 q1]
  define pos where "pos = fl ((real (length xs) - 1) * q)"
  define b where "b = \<lfloor>pos\<rfloor>"
  define vals where "vals = map Num (sort xs)"
  have b0: "0 \<le> b" and bn: "nat b < length xs" using p by (simp_all add: b_def pos_def)
  have r: "real (nat b) = of_int b" using b0 by simp
  have n1: "nat (b + 1) = nat b + 1" using b0 by simp
  have ib: "js_index vals b = Num (sort xs ! nat b)"
    using b0 bn by (simp add: js_index_def vals_def)
  have q1: "fst (quantile64 xs q) =
      (if js_index vals (b + 1) \<noteq> Undefined
       then js_add64 (js_index vals b)
              (js_mul64 (js_sub64 (Num pos) (Num (of_int b)))
                 (js_sub64 (js_index vals (b + 1)) (js_index vals b)))
       else js_index vals b)"
    using p(1) by (simp add: quantile64_def asc_def Let_def b_def pos_def vals_def)
  have q2: "quantile_type7_64 xs q =
      (if nat b + 1 < length xs
       then js_add64 (Num (sort xs ! nat b))
              (js_mul64 (js_sub64 (Num pos) (Num (of_int b)))
                 (js_sub64 (Num (sort xs ! (nat b + 1))) (Num (sort xs ! nat b))))
       else Num (sort xs ! nat b))"
    using r by (simp add: quantile_type7_64_def Let_def b_def pos_def)
  show ?thesis
  proof (cases "nat b + 1 < length xs")
    case True
    then have "js_index vals (b + 1) = Num (sort xs ! (nat b + 1))"
      using b0 n1 by (simp add: js_index_def vals_def)
    then show ?thesis using True ib by (simp add: q1 q2)
  next
    case False
    then have "js_index vals (b + 1) = Undefined"
      using b0 by (simp add: js_index_def vals_def)
    then show ?thesis using False ib by (simp add: q1 q2)
  qed
qed

lemma type7_64_exact:
  assumes "exact_steps xs q"
  shows "quantile_type7_64 xs q = Num (quantile_type7 xs q)"
proof -
  define pos where "pos = (real (length xs) - 1) * q"
  define b where "b = nat \<lfloor>pos\<rfloor>"
  have e: "is_double pos" "is_double (pos - real b)"
    using assms by (simp_all add: exact_steps_def Let_def pos_def b_def)
  have fp: "fl pos = pos" using e(1) by (rule is_double_fl)
  have rest: "js_sub64 (Num pos) (Num (real b)) = Num (pos - real b)"
    using e(2) by (simp add: is_double_def)
  show ?thesis
  proof (cases "b + 1 < length xs")
    case True
    then have d: "is_double (sort xs ! (b + 1) - sort xs ! b)"
      "is_double ((pos - real b) * (sort xs ! (b + 1) - sort xs ! b))"
      "is_double (sort xs ! b + (pos - real b) * (sort xs ! (b + 1) - sort xs ! b))"
      using assms by (simp_all add: exact_steps_def Let_def pos_def b_def)
    have "js_add64 (Num (sort xs ! b))
            (js_mul64 (js_sub64 (Num pos) (Num (real b)))
               (js_sub64 (Num (sort xs ! (b + 1))) (Num (sort xs ! b))))
          = Num (sort xs ! b + (pos - real b) * (sort xs ! (b + 1) - sort xs ! b))"
      using d e(2) by (simp add: is_double_def)
    then show ?thesis
      using True fp
      by (simp add: quantile_type7_64_def quantile_type7_def Let_def pos_def [symmetric] b_def [symmetric])
  next
    case False
    then show ?thesis
      using fp
      by (simp add: quantile_type7_64_def quantile_type7_def Let_def pos_def [symmetric] b_def [symmetric])
  qed
qed

lemmas q64_eval = quantile64_def asc_def js_index_def fl_eval

text \<open>
  C1, as the code has it. For a non-empty array of samples and \<open>q\<close> in \<open>[0, 1]\<close>, the
  value \<open>quantile\<close> returns is the type-7 estimator of the specification with each of
  its operations rounded to binary64 (\<open>pos\<close>, \<open>rest\<close>, the difference of the
  neighbours, the product and the sum), and the index \<open>base\<close> it reads is an index of the
  array. When none of these operations rounds it is the exact estimator, as in
  \<open>quantile([1,2,3,4,5], 0.5)\<close>, which is 3, and \<open>quantile([1,2,3,4], 0.5)\<close>, which is
  2.5.
\<close>

theorem quantile64_is_rounded_type7:
  assumes "samples \<noteq> []" and "length samples \<le> 2 ^ 32" and "0 \<le> q" and "q \<le> 1"
  shows "fst (quantile64 samples q) = quantile_type7_64 samples q
       \<and> nat \<lfloor>fl ((real (length samples) - 1) * q)\<rfloor> < length samples
       \<and> (exact_steps samples q \<longrightarrow> fst (quantile64 samples q) = Num (quantile_type7 samples q))
       \<and> fst (quantile64 [1, 2, 3, 4, 5] (1 / 2)) = Num 3
       \<and> fst (quantile64 [1, 2, 3, 4] (1 / 2)) = Num (5 / 2)"
proof -
  have a: "fst (quantile64 [1, 2, 3, 4, 5] (1 / 2)) = Num 3"
    by (simp add: q64_eval)
  have b: "fst (quantile64 [1, 2, 3, 4] (1 / 2)) = Num (5 / 2)"
    by (simp add: q64_eval)
  note e = quantile64_eq_type7_64 [OF assms]
  have c: "fst (quantile64 samples q) = Num (quantile_type7 samples q)" if "exact_steps samples q"
    using e type7_64_exact [OF that] by simp
  show ?thesis using a b c e pos64(3) [OF assms] by blast
qed

theorem quantile64_is_rounded_type7_witness:
  "[40, 10, 30, 20] \<noteq> ([]::real list) \<and> length [40, 10, 30, 20 :: real] \<le> 2 ^ 32
   \<and> (0::real) \<le> 1 / 2 \<and> (1 / 2 :: real) \<le> 1
   \<and> exact_steps [40, 10, 30, 20] (1 / 2)
   \<and> fst (quantile64 [40, 10, 30, 20] (1 / 2)) = Num 25
   \<and> quantile_type7 [40, 10, 30, 20] (1 / 2) = 25"
proof -
  have h: "[40, 10, 30, 20] \<noteq> ([]::real list)" "length [40, 10, 30, 20 :: real] \<le> 2 ^ 32"
    "(0::real) \<le> 1 / 2" "(1 / 2 :: real) \<le> 1"
    by simp_all
  have x: "exact_steps [40, 10, 30, 20] (1 / 2)"
    by (simp add: exact_steps_def is_double_def fl_eval)
  have v: "quantile_type7 [40, 10, 30, 20] (1 / 2) = 25"
    by (simp add: quantile_type7_def)
  from quantile64_is_rounded_type7 [OF h] x
  have "fst (quantile64 [40, 10, 30, 20] (1 / 2)) = Num (quantile_type7 [40, 10, 30, 20] (1 / 2))"
    by blast
  with v h x show ?thesis by simp
qed

text \<open>The claim as stated (the exact estimator) fails on \<open>quantile([2,5,2,2], 0.9)\<close>:
  the code returns 4.1000000000000005 (\<open>4616189618054759 / 2^50\<close>), which is neither
  the exact estimator at the double \<open>0.9\<close> nor the one at 9/10, which is 4.1.\<close>

theorem quantile64_counterexample:
  "fl (9 / 10) = 8106479329266893 / 9007199254740992
   \<and> fst (quantile64 [2, 5, 2, 2] (fl (9 / 10))) = Num (4616189618054759 / 1125899906842624)
   \<and> quantile_type7 [2, 5, 2, 2] (fl (9 / 10)) = 36929516944438069 / 9007199254740992
   \<and> quantile_type7 [2, 5, 2, 2] (9 / 10) = 41 / 10
   \<and> fst (quantile64 [2, 5, 2, 2] (fl (9 / 10))) \<noteq> Num (quantile_type7 [2, 5, 2, 2] (fl (9 / 10)))
   \<and> fst (quantile64 [2, 5, 2, 2] (fl (9 / 10))) \<noteq> Num (quantile_type7 [2, 5, 2, 2] (9 / 10))"
proof -
  have q: "fl (9 / 10) = 8106479329266893 / 9007199254740992"
    by (simp add: fl_eval)
  have a: "fst (quantile64 [2, 5, 2, 2] (8106479329266893 / 9007199254740992))
             = Num (4616189618054759 / 1125899906842624)"
    by (simp add: q64_eval)
  have b: "quantile_type7 [2, 5, 2, 2] (8106479329266893 / 9007199254740992)
             = 36929516944438069 / 9007199254740992"
    by (simp add: quantile_type7_def)
  have c: "quantile_type7 [2, 5, 2, 2] (9 / 10) = 41 / 10"
    by (simp add: quantile_type7_def)
  show ?thesis unfolding q a b c by simp
qed

section \<open>The binary64 estimate\<close>

declare fetch_blocks64.simps [simp del]

lemma quantile64_snd: "snd (quantile64 arr q) = sort arr"
  by (simp add: quantile64_def asc_def Let_def split: jsval.splits)

lemma quantile64_sorted_arg: "quantile64 (sort arr) q = quantile64 arr q"
  by (simp add: quantile64_def asc_def sorted_sort_id)

lemma dataFormatter64_priority_fees:
  assumes "dataFormatter64 blk = Inr s"
  shows "maxPriorityFeePerGas s =
           [fst (quantile64 (priority_fees blk) (fl (3 / 10))),
            fst (quantile64 (priority_fees blk) (fl (6 / 10))),
            fst (quantile64 (priority_fees blk) (fl (9 / 10)))]"
proof -
  obtain arr where arr: "map_toNumber (filter (\<lambda>tx. tx_type tx = Num 2) (transactions blk)) = Inr arr"
    using assms by (auto simp: dataFormatter64_def split: sum.splits)
  have "maxPriorityFeePerGas s =
      [fst (quantile64 arr (fl (3 / 10))),
       fst (quantile64 (snd (quantile64 arr (fl (3 / 10)))) (fl (6 / 10))),
       fst (quantile64 (snd (quantile64 (snd (quantile64 arr (fl (3 / 10)))) (fl (6 / 10))))
              (fl (9 / 10)))]"
    using assms arr
    by (auto simp: dataFormatter64_def Let_def split: sum.splits prod.splits)
  moreover have "arr = priority_fees blk"
    using map_toNumber_Inr [OF arr] by (simp add: priority_fees_def)
  ultimately show ?thesis by (simp add: quantile64_snd quantile64_sorted_arg)
qed

lemma fetch_blocks64_success:
  assumes "\<forall>j. i \<le> j \<and> j < n \<longrightarrow>
             getBlockWithTransactions p j = Inr (raw j) \<and> dataFormatter64 (raw j) = Inr (fmt j)"
  shows "fetch_blocks64 p i n acc = Inr (acc @ map fmt [i..n - 1])"
  using assms
proof (induction p i n acc rule: fetch_blocks64.induct)
  case (1 p i n acc)
  show ?case
  proof (cases "i < n")
    case True
    have here: "getBlockWithTransactions p i = Inr (raw i)" "dataFormatter64 (raw i) = Inr (fmt i)"
      using "1.prems" True by simp_all
    have "fetch_blocks64 p (i + 1) n (acc @ [fmt i]) = Inr ((acc @ [fmt i]) @ map fmt [i + 1..n - 1])"
      using "1.IH" [OF True here] "1.prems" by simp
    moreover have "[i..n - 1] = i # [i + 1..n - 1]"
      using True by (simp add: upto_rec1)
    ultimately show ?thesis
      using True here by (simp add: fetch_blocks64.simps [of p i n acc])
  next
    case False
    then show ?thesis by (simp add: fetch_blocks64.simps [of p i n acc])
  qed
qed

lemma gasEstimator64_four:
  assumes N: "getBlockNumber p = Inr N"
    and raws: "map (getBlockWithTransactions p) [N - 4, N - 3, N - 2, N - 1] = map Inr [r0, r1, r2, r3]"
    and fmts: "map dataFormatter64 [r0, r1, r2, r3] = map Inr [s0, s1, s2, s3]"
    and pend: "getBlock_pending p = Inr pending"
    and base: "toNumber pending = Inr baseFee"
  shows "gasEstimator64 p = Inr
           \<lparr> slow = js_add64 (Num baseFee)
               (mean64 (map (\<lambda>s. js_index (maxPriorityFeePerGas s) 0) [s0, s1, s2, s3])),
             average = js_add64 (Num baseFee)
               (mean64 (map (\<lambda>s. js_index (maxPriorityFeePerGas s) 1) [s0, s1, s2, s3])),
             fast = js_add64 (Num baseFee)
               (mean64 (map (\<lambda>s. js_index (maxPriorityFeePerGas s) 2) [s0, s1, s2, s3])) \<rparr>"
proof -
  define raw where "raw j = (if j = N - 4 then r0 else if j = N - 3 then r1
                             else if j = N - 2 then r2 else r3)" for j
  define fmt where "fmt j = (if j = N - 4 then s0 else if j = N - 3 then s1
                             else if j = N - 2 then s2 else s3)" for j
  have win: "\<forall>j. N - 4 \<le> j \<and> j < N \<longrightarrow>
             getBlockWithTransactions p j = Inr (raw j) \<and> dataFormatter64 (raw j) = Inr (fmt j)"
  proof (intro allI impI)
    fix j assume "N - 4 \<le> j \<and> j < N"
    then consider "j = N - 4" | "j = N - 3" | "j = N - 2" | "j = N - 1" by linarith
    then show "getBlockWithTransactions p j = Inr (raw j) \<and> dataFormatter64 (raw j) = Inr (fmt j)"
      using raws fmts by cases (simp_all add: raw_def fmt_def)
  qed
  have "fetch_blocks64 p (N - 4) N [] = Inr ([] @ map fmt [N - 4..N - 1])"
    using win by (rule fetch_blocks64_success)
  then have "fetch_blocks64 p (N - 4) N [] = Inr [fmt (N - 4), fmt (N - 3), fmt (N - 2), fmt (N - 1)]"
    by (simp add: window_upto)
  then show ?thesis
    using N pend base by (simp add: gasEstimator64_def fmt_def)
qed

lemmas eval64_defs = dataFormatter64_def toNumber_def quantile64_def asc_def js_index_def
  scenario_block_def type2_txs_def fl_eval

lemma fetch_blocks64_step:
  "i < n \<Longrightarrow> fetch_blocks64 p i n acc =
     (case getBlockWithTransactions p i of
        Inl e \<Rightarrow> Inl e
      | Inr raw \<Rightarrow>
          (case dataFormatter64 raw of
             Inl e \<Rightarrow> Inl e
           | Inr b \<Rightarrow> fetch_blocks64 p (i + 1) n (acc @ [b])))"
  by (simp add: fetch_blocks64.simps [of p i n acc])

lemma fetch_blocks64_stop: "\<not> i < n \<Longrightarrow> fetch_blocks64 p i n acc = Inr acc"
  by (simp add: fetch_blocks64.simps [of p i n acc])

lemma fetch_blocks_step:
  "i < n \<Longrightarrow> fetch_blocks p i n acc =
     (case getBlockWithTransactions p i of
        Inl e \<Rightarrow> Inl e
      | Inr raw \<Rightarrow>
          (case dataFormatter raw of
             Inl e \<Rightarrow> Inl e
           | Inr b \<Rightarrow> fetch_blocks p (i + 1) n (acc @ [b])))"
  by (simp add: fetch_blocks.simps [of p i n acc])

lemma fetch_blocks_stop: "\<not> i < n \<Longrightarrow> fetch_blocks p i n acc = Inr acc"
  by (simp add: fetch_blocks.simps [of p i n acc])

lemma rounding_window_binary64:
  "gasEstimator64 rounding_window = Inr \<lparr> slow = Num 110, average = Num 112, fast = Num 116 \<rparr>"
  by (simp add: gasEstimator64_def rounding_window_def fetch_blocks64_step fetch_blocks64_stop
      dataFormatter64_def toNumber_def quantile64_def asc_def js_index_def type2_txs_def
      mean64_def sum_arr64_def fl_eval)

lemma rounding_window_exact:
  "gasEstimator rounding_window = Inr \<lparr> slow = Num 110, average = Num 113, fast = Num 116 \<rparr>"
  by (simp add: gasEstimator_def rounding_window_def fetch_blocks_step fetch_blocks_stop
      dataFormatter_def toNumber_def quantile_def asc_def js_index_def type2_txs_def
      mean_def sum_arr_def)

lemma scenario64_summaries:
  "map dataFormatter64 [scenario_block 16308999, scenario_block 16309000,
                         scenario_block 16309001, scenario_block 16309002]
     = map Inr
         [\<lparr> summary_number = 16308999, summary_baseFeePerGas = 13969109554,
            maxPriorityFeePerGas = [Num 1500000000, Num 2000000000, Num 4414699130],
            gasUsedRatio = js_div64 (Num 19902600) (Num 30000000) \<rparr>,
          \<lparr> summary_number = 16309000, summary_baseFeePerGas = 14539817524,
            maxPriorityFeePerGas = [Num 1500000000, Num 1500000000, Num 2000000000],
            gasUsedRatio = js_div64 (Num 8300280) (Num 30000000) \<rparr>,
          \<lparr> summary_number = 16309001, summary_baseFeePerGas = 13728044972,
            maxPriorityFeePerGas = [Num 1500000000, Num 1900000000, Num 2500000000],
            gasUsedRatio = js_div64 (Num 8581677) (Num 30000000) \<rparr>,
          \<lparr> summary_number = 16309002, summary_baseFeePerGas = 12993786416,
            maxPriorityFeePerGas = [Num 1500000000, Num 1500000000, Num 2500000000],
            gasUsedRatio = js_div64 (Num 27208975) (Num 30000000) \<rparr>]"
  by (simp add: eval64_defs)

text \<open>
  C2, as the code has it. With \<open>N\<close> the block number the provider reports, the
  estimator reads the four blocks \<open>N - 4\<close>, \<open>N - 3\<close>, \<open>N - 2\<close>, \<open>N - 1\<close> and no other:
  block \<open>N\<close> itself is not read, and a provider that gives the same block number, the
  same four blocks and the same pending block gives the same estimate. When these
  fetches, the conversions and the fetch of the pending block succeed, the tiers of each
  block are the binary64 quantiles, at the doubles \<open>0.3\<close>, \<open>0.6\<close> and \<open>0.9\<close>, of the
  priority fees of its transactions of type 2, and each bid is the binary64 sum of the
  pending block's base fee and the binary64 mean of its tier over the four blocks. With
  the tiers and the pending base fee of the scenario, \<open>slow\<close> is 15469109554.
\<close>

theorem gasEstimator64_window:
  assumes N: "getBlockNumber p = Inr N"
    and raws: "map (getBlockWithTransactions p) [N - 4, N - 3, N - 2, N - 1] = map Inr [r0, r1, r2, r3]"
    and fmts: "map dataFormatter64 [r0, r1, r2, r3] = map Inr [s0, s1, s2, s3]"
    and pend: "getBlock_pending p = Inr pending"
    and base: "toNumber pending = Inr baseFee"
  shows "gasEstimator64 p = Inr
           \<lparr> slow = js_add64 (Num baseFee)
               (mean64 (map (\<lambda>s. js_index (maxPriorityFeePerGas s) 0) [s0, s1, s2, s3])),
             average = js_add64 (Num baseFee)
               (mean64 (map (\<lambda>s. js_index (maxPriorityFeePerGas s) 1) [s0, s1, s2, s3])),
             fast = js_add64 (Num baseFee)
               (mean64 (map (\<lambda>s. js_index (maxPriorityFeePerGas s) 2) [s0, s1, s2, s3])) \<rparr>
       \<and> map maxPriorityFeePerGas [s0, s1, s2, s3]
           = map (\<lambda>r. [fst (quantile64 (priority_fees r) (fl (3 / 10))),
                        fst (quantile64 (priority_fees r) (fl (6 / 10))),
                        fst (quantile64 (priority_fees r) (fl (9 / 10)))]) [r0, r1, r2, r3]
       \<and> (map maxPriorityFeePerGas [s0, s1, s2, s3]
             = [[Num 1500000000, Num 2000000000, Num 4414699130],
                [Num 1500000000, Num 1500000000, Num 2000000000],
                [Num 1500000000, Num 1900000000, Num 2500000000],
                [Num 1500000000, Num 1500000000, Num 2500000000]]
           \<and> baseFee = 13969109554
           \<longrightarrow> (\<exists>r. gasEstimator64 p = Inr r \<and> slow r = Num 15469109554))
       \<and> (getBlockNumber p' = Inr N
           \<and> map (getBlockWithTransactions p') [N - 4, N - 3, N - 2, N - 1] = map Inr [r0, r1, r2, r3]
           \<and> getBlock_pending p' = Inr pending
           \<longrightarrow> gasEstimator64 p' = gasEstimator64 p)"
proof -
  note est = gasEstimator64_four [OF N raws fmts pend base]
  have frame: "gasEstimator64 p' = gasEstimator64 p"
    if "getBlockNumber p' = Inr N
           \<and> map (getBlockWithTransactions p') [N - 4, N - 3, N - 2, N - 1] = map Inr [r0, r1, r2, r3]
           \<and> getBlock_pending p' = Inr pending"
    using that gasEstimator64_four [of p' N r0 r1 r2 r3 s0 s1 s2 s3 pending baseFee] fmts base est
    by simp
  have tiers: "map maxPriorityFeePerGas [s0, s1, s2, s3]
           = map (\<lambda>r. [fst (quantile64 (priority_fees r) (fl (3 / 10))),
                        fst (quantile64 (priority_fees r) (fl (6 / 10))),
                        fst (quantile64 (priority_fees r) (fl (9 / 10)))]) [r0, r1, r2, r3]"
  proof -
    have "dataFormatter64 r0 = Inr s0" "dataFormatter64 r1 = Inr s1"
      "dataFormatter64 r2 = Inr s2" "dataFormatter64 r3 = Inr s3"
      using fmts by simp_all
    then show ?thesis
      using dataFormatter64_priority_fees [of r0 s0] dataFormatter64_priority_fees [of r1 s1]
        dataFormatter64_priority_fees [of r2 s2] dataFormatter64_priority_fees [of r3 s3]
      by simp
  qed
  have scen: "\<exists>r. gasEstimator64 p = Inr r \<and> slow r = Num 15469109554"
    if "map maxPriorityFeePerGas [s0, s1, s2, s3]
             = [[Num 1500000000, Num 2000000000, Num 4414699130],
                [Num 1500000000, Num 1500000000, Num 2000000000],
                [Num 1500000000, Num 1900000000, Num 2500000000],
                [Num 1500000000, Num 1500000000, Num 2500000000]]
           \<and> baseFee = 13969109554"
    using that by (simp add: est mean64_def sum_arr64_def js_index_def fl_eval)
  show ?thesis using est tiers scen frame by blast
qed

theorem gasEstimator64_window_witness:
  "gasEstimator64 scenario_provider = Inr
     \<lparr> slow = Num 15469109554, average = Num 15694109554, fast = Num 16822784337 \<rparr>
   \<and> (\<exists>r. gasEstimator64 scenario_provider = Inr r \<and> slow r = Num 15469109554)"
  using gasEstimator64_window [OF scenario_number scenario_raws scenario64_summaries scenario_pending]
  by (simp add: mean64_def sum_arr64_def js_index_def fl_eval)

text \<open>The claim as stated (each bid is the base fee plus the mean of the tier, the mean
  rounded to the nearest integer) fails on a window whose blocks hold the fees
  \<open>[1, 10]\<close>, \<open>[9, 24]\<close>, \<open>[11, 18]\<close> and \<open>[5, 14]\<close> with base fee 100: the 0.6
  quantiles are 6.4, 18, 15.2 and 10.4, their mean is 12.5 and the bid would be 113; the
  code's quantiles are 6.3999999999999995, 18, 15.2 and 10.399999999999999, their
  binary64 mean rounds to 12 and the bid is 112. Block 5, the block whose number the
  provider reports and which it holds, is not among the blocks read.\<close>

theorem gasEstimator64_counterexample:
  "gasEstimator64 rounding_window = Inr \<lparr> slow = Num 110, average = Num 112, fast = Num 116 \<rparr>
   \<and> quantile_type7 [1, 10] (6 / 10) = 32 / 5
   \<and> quantile_type7 [9, 24] (6 / 10) = 18
   \<and> quantile_type7 [11, 18] (6 / 10) = 76 / 5
   \<and> quantile_type7 [5, 14] (6 / 10) = 52 / 5
   \<and> 100 + round ((32 / 5 + 18 + 76 / 5 + 52 / 5) / 4 :: real) = 113
   \<and> gasEstimator rounding_window = Inr \<lparr> slow = Num 110, average = Num 113, fast = Num 116 \<rparr>
   \<and> gasEstimator64 rounding_window \<noteq> gasEstimator rounding_window
   \<and> getBlockNumber rounding_window = Inr 5
   \<and> getBlockWithTransactions rounding_window 5
       = Inr \<lparr> number = 5, baseFeePerGas = 100, gasUsed = 42000, gasLimit = 30000000,
               transactions = [\<lparr> tx_type = Num 2, tx_maxPriorityFeePerGas = 1000 \<rparr>] \<rparr>"
proof -
  have q: "quantile_type7 [1, 10] (6 / 10) = 32 / 5" "quantile_type7 [9, 24] (6 / 10) = 18"
    "quantile_type7 [11, 18] (6 / 10) = 76 / 5" "quantile_type7 [5, 14] (6 / 10) = 52 / 5"
    by (simp_all add: quantile_type7_def)
  have r: "100 + round ((32 / 5 + 18 + 76 / 5 + 52 / 5) / 4 :: real) = 113"
    by (simp add: round_def)
  have b: "getBlockNumber rounding_window = Inr 5"
    "getBlockWithTransactions rounding_window 5
       = Inr \<lparr> number = 5, baseFeePerGas = 100, gasUsed = 42000, gasLimit = 30000000,
               transactions = [\<lparr> tx_type = Num 2, tx_maxPriorityFeePerGas = 1000 \<rparr>] \<rparr>"
    by (simp_all add: rounding_window_def type2_txs_def)
  show ?thesis
    unfolding rounding_window_binary64 rounding_window_exact using q r b by simp
qed

section \<open>The two readings of the arithmetic\<close>

text \<open>The binary64 operations are the exact ones wherever the exact result is a finite
  double, and on the special values.\<close>

lemma js_add64_exact: "is_double (a + b) \<Longrightarrow> js_add64 (Num a) (Num b) = js_add (Num a) (Num b)"
  by (simp add: is_double_def)

lemma js_sub64_exact: "is_double (a - b) \<Longrightarrow> js_sub64 (Num a) (Num b) = js_sub (Num a) (Num b)"
  by (simp add: is_double_def)

lemma js_mul64_exact: "is_double (a * b) \<Longrightarrow> js_mul64 (Num a) (Num b) = js_mul (Num a) (Num b)"
  by (simp add: is_double_def)

lemma js_div64_exact: "is_double (a / b) \<Longrightarrow> js_div64 (Num a) (Num b) = js_div (Num a) (Num b)"
  by (simp add: is_double_def)

lemma js_ops64_special:
  "\<not> (\<exists>a b. u = Num a \<and> v = Num b) \<Longrightarrow>
     js_add64 u v = js_add u v \<and> js_sub64 u v = js_sub u v
     \<and> js_mul64 u v = js_mul u v \<and> js_div64 u v = js_div u v"
  by (cases u; cases v) simp_all

text \<open>The results on the array, on the empty input and on a window without
  transactions of type 2 involve no rounding: they hold of the binary64 functions as
  they do of the exact ones (for the array, \<open>quantile64_snd\<close>).\<close>

lemma quantile64_empty: "quantile64 [] q = (Undefined, [])"
  by (simp add: quantile64_def asc_def js_index_Nil Let_def split: jsval.splits)

lemma mean64_empty: "mean64 [] = NaN"
  by (simp add: mean64_def sum_arr64_def signed_inf_def)

lemma quantile64_singleton: "quantile64 [x] q = (Num x, [x])"
  by (simp add: quantile64_def asc_def js_index_def fl_zero to_Number_finite)

lemma dataFormatter64_no_type2:
  assumes none: "\<forall>tx\<in>set (transactions r). tx_type tx \<noteq> Num 2"
    and safe: "\<bar>baseFeePerGas r\<bar> < 2 ^ 53" "\<bar>gasUsed r\<bar> < 2 ^ 53" "\<bar>gasLimit r\<bar> < 2 ^ 53"
  shows "dataFormatter64 r = Inr
           \<lparr> summary_number = number r,
             summary_baseFeePerGas = real_of_int (baseFeePerGas r),
             maxPriorityFeePerGas = [Undefined, Undefined, Undefined],
             gasUsedRatio = js_div64 (Num (real_of_int (gasUsed r))) (Num (real_of_int (gasLimit r))) \<rparr>"
proof -
  have "filter (\<lambda>tx. tx_type tx = Num 2) (transactions r) = []"
    using none by (simp add: filter_empty_conv)
  then show ?thesis
    using safe by (simp add: dataFormatter64_def toNumber_def quantile64_empty)
qed

lemma empty_window_estimate64:
  assumes N: "getBlockNumber p = Inr N"
    and raws: "map (getBlockWithTransactions p) [N - 4, N - 3, N - 2, N - 1] = map Inr [r0, r1, r2, r3]"
    and none: "\<forall>r\<in>set [r0, r1, r2, r3]. \<forall>tx\<in>set (transactions r). tx_type tx \<noteq> Num 2"
    and safe: "\<forall>r\<in>set [r0, r1, r2, r3].
                 \<bar>baseFeePerGas r\<bar> < 2 ^ 53 \<and> \<bar>gasUsed r\<bar> < 2 ^ 53 \<and> \<bar>gasLimit r\<bar> < 2 ^ 53"
    and pend: "getBlock_pending p = Inr pending"
    and base: "\<bar>pending\<bar> < 2 ^ 53"
  shows "gasEstimator64 p = Inr \<lparr> slow = NaN, average = NaN, fast = NaN \<rparr>"
proof -
  define fmt where "fmt r =
           \<lparr> summary_number = number r,
             summary_baseFeePerGas = real_of_int (baseFeePerGas r),
             maxPriorityFeePerGas = [Undefined, Undefined, Undefined],
             gasUsedRatio = js_div64 (Num (real_of_int (gasUsed r))) (Num (real_of_int (gasLimit r))) \<rparr>"
    for r :: block
  have each: "dataFormatter64 r = Inr (fmt r)" if mem: "r \<in> set [r0, r1, r2, r3]" for r
    unfolding fmt_def using none safe mem by (intro dataFormatter64_no_type2) auto
  have fmts: "map dataFormatter64 [r0, r1, r2, r3] = map Inr [fmt r0, fmt r1, fmt r2, fmt r3]"
    using each by simp
  have tn: "toNumber pending = Inr (real_of_int pending)"
    using base by (simp add: toNumber_def)
  show ?thesis
    using gasEstimator64_four [OF N raws fmts pend tn]
    by (simp add: fmt_def mean64_def sum_arr64_def js_index_def)
qed

end
